theory Spec2Isabelle
  imports Main
begin

section \<open>The MCP server manager (src/server-manager.ts)\<close>

text \<open>
  A shallow embedding of the class \<open>McpServerManager\<close>. Every method takes the manager
  state and returns its outcome together with the new state. A thrown \<open>Error\<close> is the
  left injection of the result. Calls made on the external collaborators (the SDK client
  of a backend) are recorded, in order, in the field \<open>trace\<close> of the state, so that
  "which backend was touched, and when" is a statement about a value.
\<close>

subsection \<open>JavaScript values used by the code\<close>

text \<open>
  An optional string property. \<open>None\<close> is \<open>undefined\<close>. JavaScript treats a missing
  property and the empty string alike in a condition: both are falsy.
\<close>

definition truthy :: "string option \<Rightarrow> bool" where
  "truthy v = (case v of None \<Rightarrow> False | Some s \<Rightarrow> s \<noteq> [])"

text \<open>
  A JavaScript \<open>Map\<close> with string keys, as the list of its entries in insertion order.
  \<open>set\<close> on a key that is present replaces the value in place, on a new key it appends;
  \<open>delete\<close> removes the entry; \<open>keys\<close> enumerates in insertion order.
\<close>

type_synonym 'v js_map = "(string \<times> 'v) list"

definition Map_has :: "'v js_map \<Rightarrow> string \<Rightarrow> bool" where
  "Map_has m k = (k \<in> set (map fst m))"

definition Map_get :: "'v js_map \<Rightarrow> string \<Rightarrow> 'v option" where
  "Map_get m k = map_of m k"

fun Map_set :: "'v js_map \<Rightarrow> string \<Rightarrow> 'v \<Rightarrow> 'v js_map" where
  "Map_set [] k v = [(k, v)]"
| "Map_set (p # ps) k v = (if fst p = k then (k, v) # ps else p # Map_set ps k v)"

definition Map_delete :: "'v js_map \<Rightarrow> string \<Rightarrow> 'v js_map" where
  "Map_delete m k = filter (\<lambda>p. fst p \<noteq> k) m"

definition Map_keys :: "'v js_map \<Rightarrow> string list" where
  "Map_keys m = map fst m"

subsection \<open>Tools, listings and sessions\<close>

text \<open>
  A tool descriptor as a backend reports it. The input schema is opaque to the manager
  (type \<open>'a\<close>). Name and description may be missing.
\<close>

record 'a tool =
  name :: "string option"
  description :: "string option"
  inputSchema :: 'a

text \<open>The projection \<open>{ name: tool.name, description: tool.description }\<close>.\<close>

datatype tool_info = ToolInfo (info_name: "string option") (info_description: "string option")

definition project :: "'a tool \<Rightarrow> tool_info" where
  "project t = ToolInfo (name t) (description t)"

text \<open>
  The property \<open>tools\<close> of a listing response: missing (falsy), present but not an array,
  or an array of descriptors. An empty array is truthy in JavaScript.
\<close>

datatype 'a tools_value = Absent | NotAnArray | Array "'a tool list"

record 'a ListToolsResult =
  tools :: "'a tools_value"

text \<open>
  The SDK client of one backend, seen from the manager: what \<open>client.listTools()\<close>
  answers (a failure message, or a response) and whether \<open>client.close()\<close> fails
  (with which message).
\<close>

record 'a Client =
  listTools_reply :: "string + 'a ListToolsResult"
  close_reply :: "string option"

subsection \<open>Connection parameters and transports\<close>

text \<open>
  The fields of \<open>ConnectMcpParams | McpServerConfig\<close> that \<open>connectToServer\<close> reads.
  The discriminant \<open>type\<close> is kept as the string the code compares with \<open>"http"\<close>.
\<close>

record params =
  p_type :: "string option"
  p_command :: "string option"
  p_args :: "string list option"
  p_env :: "(string \<rightharpoonup> string) option"
  p_url :: "string option"
  p_headers :: "(string \<rightharpoonup> string) option"

datatype transport =
    StdioClientTransport string "string list" "string \<rightharpoonup> string"
  | StreamableHTTPClientTransport string "(string \<rightharpoonup> string) option"

subsection \<open>Regular expressions\<close>

text \<open>
  The regular-expression engine belongs to the JavaScript runtime. A compiled pattern is
  taken as its matcher: \<open>m s i\<close> is the end index of the first match of the pattern in
  \<open>s\<close> that starts at index \<open>i\<close> or later, if there is one. The object built by
  \<open>new RegExp(pattern, flags)\<close> holds the matcher, the flag \<open>g\<close> and \<open>lastIndex\<close>.
\<close>

type_synonym matcher = "string \<Rightarrow> nat \<Rightarrow> nat option"

record RegExp =
  exec_from :: matcher
  global :: bool
  lastIndex :: nat

text \<open>
  \<open>regex.test(s)\<close> as the language defines it. Without the flag \<open>g\<close> the search starts at
  index 0 and the object is left alone. With \<open>g\<close> the search starts at \<open>lastIndex\<close>; a
  match stores its end index in \<open>lastIndex\<close>, a failure resets \<open>lastIndex\<close> to 0.
\<close>

definition RegExp_test :: "RegExp \<Rightarrow> string \<Rightarrow> bool \<times> RegExp" where
  "RegExp_test r s =
     (if global r then
        (if length s < lastIndex r then (False, r\<lparr>lastIndex := 0\<rparr>)
         else (case exec_from r s (lastIndex r) of
                 None \<Rightarrow> (False, r\<lparr>lastIndex := 0\<rparr>)
               | Some e \<Rightarrow> (True, r\<lparr>lastIndex := e\<rparr>)))
      else (exec_from r s 0 \<noteq> None, r))"

subsection \<open>The host: what the runtime and the network answer\<close>

record http_response =
  ok :: bool
  status :: nat

record McpConfig =
  mcpServers :: "(string \<times> params) list option"

text \<open>
  \<^item> \<open>URL_parse\<close>: \<open>new URL(s)\<close>, \<open>None\<close> when it throws;
  \<^item> \<open>process_env\<close>: the environment of the host process;
  \<^item> \<open>client_connect\<close>: \<open>client.connect(transport)\<close> for the client named by the first
    argument: a failure message, or the connected client;
  \<^item> \<open>fetch\<close>: the HTTP request of \<open>fetchConfigFromApi\<close>: a failure message, or the
    response with the outcome of \<open>response.json()\<close>;
  \<^item> \<open>RegExp_compile\<close>: the compiler behind \<open>new RegExp(pattern, flags)\<close>: the message of
    the syntax error, or the matcher.
\<close>

record 'a host =
  URL_parse :: "string \<Rightarrow> string option"
  process_env :: "string \<rightharpoonup> string"
  client_connect :: "string \<Rightarrow> transport \<Rightarrow> string + 'a Client"
  fetch :: "string \<Rightarrow> string + (http_response \<times> (string + McpConfig))"
  RegExp_compile :: "string \<Rightarrow> string \<Rightarrow> string + matcher"

definition new_RegExp :: "'a host \<Rightarrow> string \<Rightarrow> string \<Rightarrow> string + RegExp" where
  "new_RegExp h pattern flags =
     (case RegExp_compile h pattern flags of
        Inl msg \<Rightarrow> Inl msg
      | Inr m \<Rightarrow> Inr \<lparr>exec_from = m, global = (CHR ''g'' \<in> set flags), lastIndex = 0\<rparr>)"

subsection \<open>Errors\<close>

text \<open>One constructor for each \<open>throw\<close> of the source, and one for an error of a backend
  that a method lets through.\<close>

datatype error =
    BlueprintIdNotSpecified
  | FetchConfigFailed string string
  | AlreadyConnected string
  | MissingUrl string
  | InvalidUrl string
  | MissingCommand string
  | ConnectionFailed string string
  | RegExpSyntaxError string
  | InvalidPattern string
  | DisconnectFailed string string
  | NotConnected string
  | BackendError string

text \<open>The property \<open>message\<close> of the thrown error.\<close>

fun message :: "error \<Rightarrow> string" where
  "message BlueprintIdNotSpecified = ''Blueprint ID not specified.''"
| "message (FetchConfigFailed b m) =
     ''Failed to fetch configuration for blueprint '' @ [CHR 0x27] @ b @ [CHR 0x27] @ '': '' @ m"
| "message (AlreadyConnected n) =
     ''Already connected to server '' @ [CHR 0x27] @ n @ [CHR 0x27] @ ''.''"
| "message (MissingUrl n) =
     ''HTTP server '' @ [CHR 0x27] @ n @ [CHR 0x27] @ '' requires a URL.''"
| "message (InvalidUrl m) = m"
| "message (MissingCommand n) =
     ''Stdio server '' @ [CHR 0x27] @ n @ [CHR 0x27] @ '' requires a command.''"
| "message (ConnectionFailed n m) =
     ''Failed to connect to server '' @ [CHR 0x27] @ n @ [CHR 0x27] @ '': '' @ m"
| "message (RegExpSyntaxError m) = m"
| "message (InvalidPattern m) = ''Invalid regex pattern: '' @ m"
| "message (DisconnectFailed n m) =
     ''Failed to disconnect from server '' @ [CHR 0x27] @ n @ [CHR 0x27] @ '': '' @ m"
| "message (NotConnected n) =
     ''Not connected to server '' @ [CHR 0x27] @ n @ [CHR 0x27] @ ''.''"
| "message (BackendError m) = m"

subsection \<open>The manager state\<close>

datatype event =
    ClientConnect string
  | ClientListTools string
  | ClientClose string

record 'a manager =
  clients :: "'a Client js_map"
  blueprintId :: "string option"
  trace :: "event list"

definition record_event :: "event \<Rightarrow> 'a manager \<Rightarrow> 'a manager" where
  "record_event e st = st\<lparr>trace := trace st @ [e]\<rparr>"

subsection \<open>connectToServer\<close>

definition transportType :: "params \<Rightarrow> string" where
  "transportType p =
     (case p_type p of
        Some t \<Rightarrow> (if t \<noteq> [] then t else if truthy (p_command p) then ''stdio'' else ''http'')
      | None \<Rightarrow> (if truthy (p_command p) then ''stdio'' else ''http''))"

text \<open>The first half of \<open>connectToServer\<close>: the transport the parameters describe.\<close>

text \<open>
  \<open>Object.assign(env, params.env)\<close> on the copy of the host environment. It stores each
  own key of the source with an ordinary assignment, and on a plain object the assignment
  to the key \<open>__proto__\<close> runs the setter of \<open>Object.prototype\<close>, which ignores a string:
  that key of the overlay is lost.
\<close>

definition Object_assign :: "(string \<rightharpoonup> string) \<Rightarrow> (string \<rightharpoonup> string) \<Rightarrow> (string \<rightharpoonup> string)" where
  "Object_assign target source = target ++ (source(''__proto__'' := None))"

definition make_transport :: "'a host \<Rightarrow> string \<Rightarrow> params \<Rightarrow> error + transport" where
  "make_transport h serverName p =
     (if transportType p = ''http'' then
        (case p_url p of
           None \<Rightarrow> Inl (MissingUrl serverName)
         | Some u \<Rightarrow>
             if u = [] then Inl (MissingUrl serverName)
             else (case URL_parse h u of
                     None \<Rightarrow> Inl (InvalidUrl ''Invalid URL'')
                   | Some url \<Rightarrow> Inr (StreamableHTTPClientTransport url (p_headers p))))
      else
        (case p_command p of
           None \<Rightarrow> Inl (MissingCommand serverName)
         | Some c \<Rightarrow>
             if c = [] then Inl (MissingCommand serverName)
             else Inr (StdioClientTransport c
                        (case p_args p of None \<Rightarrow> [] | Some a \<Rightarrow> a)
                        (case p_env p of None \<Rightarrow> process_env h
                                       | Some e \<Rightarrow> Object_assign (process_env h) e))))"

definition connectToServer ::
  "'a host \<Rightarrow> 'a manager \<Rightarrow> string \<Rightarrow> params \<Rightarrow> (error + unit) \<times> 'a manager" where
  "connectToServer h st serverName p =
     (if Map_has (clients st) serverName then (Inl (AlreadyConnected serverName), st)
      else
        (case make_transport h serverName p of
           Inl e \<Rightarrow> (Inl e, st)
         | Inr tr \<Rightarrow>
             (let st1 = record_event (ClientConnect serverName) st in
              case client_connect h (''mcp-client-'' @ serverName) tr of
                Inr client \<Rightarrow> (Inr (), st1\<lparr>clients := Map_set (clients st1) serverName client\<rparr>)
              | Inl msg \<Rightarrow> (Inl (ConnectionFailed serverName msg), st1))))"

subsection \<open>getClient, listServers, disconnectServer, disconnectAll\<close>

definition getClient :: "'a manager \<Rightarrow> string \<Rightarrow> error + 'a Client" where
  "getClient st serverName =
     (case Map_get (clients st) serverName of
        None \<Rightarrow> Inl (NotConnected serverName)
      | Some client \<Rightarrow> Inr client)"

definition getConnectedServers :: "'a manager \<Rightarrow> string list" where
  "getConnectedServers st = Map_keys (clients st)"

definition listServers :: "'a manager \<Rightarrow> string list" where
  "listServers st = getConnectedServers st"

definition disconnectServer :: "'a manager \<Rightarrow> string \<Rightarrow> (error + unit) \<times> 'a manager" where
  "disconnectServer st serverName =
     (case Map_get (clients st) serverName of
        None \<Rightarrow> (Inl (NotConnected serverName), st)
      | Some client \<Rightarrow>
          (let st1 = record_event (ClientClose serverName) st in
           case close_reply client of
             None \<Rightarrow> (Inr (), st1\<lparr>clients := Map_delete (clients st1) serverName\<rparr>)
           | Some msg \<Rightarrow> (Inl (DisconnectFailed serverName msg), st1)))"

text \<open>The loop of \<open>disconnectAll\<close> over the names read before it starts. The \<open>await\<close>
  of a rejected \<open>disconnectServer\<close> throws out of the loop.\<close>

fun disconnect_each :: "'a manager \<Rightarrow> string list \<Rightarrow> (error + unit) \<times> 'a manager" where
  "disconnect_each st [] = (Inr (), st)"
| "disconnect_each st (serverName # rest) =
     (case disconnectServer st serverName of
        (Inl e, st') \<Rightarrow> (Inl e, st')
      | (Inr _, st') \<Rightarrow> disconnect_each st' rest)"

definition disconnectAll :: "'a manager \<Rightarrow> (error + unit) \<times> 'a manager" where
  "disconnectAll st = disconnect_each st (getConnectedServers st)"

subsection \<open>listTools and listToolsInServer\<close>

definition listTools ::
  "'a manager \<Rightarrow> string \<Rightarrow> (error + 'a ListToolsResult) \<times> 'a manager" where
  "listTools st serverName =
     (case getClient st serverName of
        Inl e \<Rightarrow> (Inl e, st)
      | Inr client \<Rightarrow>
          (case listTools_reply client of
             Inl msg \<Rightarrow> (Inl (BackendError msg), record_event (ClientListTools serverName) st)
           | Inr toolsResponse \<Rightarrow>
               (Inr toolsResponse, record_event (ClientListTools serverName) st)))"

text \<open>\<open>listToolsInServer\<close> returns an object whose only property is \<open>tools\<close>; the model
  returns that array.\<close>

definition listToolsInServer ::
  "'a manager \<Rightarrow> string \<Rightarrow> (error + tool_info list) \<times> 'a manager" where
  "listToolsInServer st serverName =
     (case getClient st serverName of
        Inl e \<Rightarrow> (Inl e, st)
      | Inr client \<Rightarrow>
          (case listTools_reply client of
             Inl msg \<Rightarrow> (Inl (BackendError msg), record_event (ClientListTools serverName) st)
           | Inr toolsResponse \<Rightarrow>
               (case tools toolsResponse of
                  Array ts \<Rightarrow> (Inr (map project ts), record_event (ClientListTools serverName) st)
                | _ \<Rightarrow> (Inr [], record_event (ClientListTools serverName) st))))"

subsection \<open>The filter of findToolsInServer and findTools\<close>

datatype searchIn = InName | InDescription | InBoth

text \<open>\<open>v && regex.test(v)\<close>: the test runs only on a truthy \<open>v\<close>.\<close>

definition guarded_test :: "RegExp \<Rightarrow> string option \<Rightarrow> bool \<times> RegExp" where
  "guarded_test r v =
     (case v of
        None \<Rightarrow> (False, r)
      | Some s \<Rightarrow> (if s = [] then (False, r) else RegExp_test r s))"

text \<open>The callback of \<open>filter\<close>. Both constants are computed, the name first; the regular
  expression object is the same in both tests and in all calls of the callback.\<close>

definition tool_matches :: "searchIn \<Rightarrow> RegExp \<Rightarrow> 'a tool \<Rightarrow> bool \<times> RegExp" where
  "tool_matches si r t =
     (case (if si \<noteq> InDescription then guarded_test r (name t) else (False, r)) of
        (nameMatch, r1) \<Rightarrow>
          (case (if si \<noteq> InName then guarded_test r1 (description t) else (False, r1)) of
             (descriptionMatch, r2) \<Rightarrow> (nameMatch \<or> descriptionMatch, r2)))"

fun filter_tools :: "searchIn \<Rightarrow> RegExp \<Rightarrow> 'a tool list \<Rightarrow> 'a tool list \<times> RegExp" where
  "filter_tools si r [] = ([], r)"
| "filter_tools si r (t # ts) =
     (case tool_matches si r t of
        (keep, r1) \<Rightarrow>
          (case filter_tools si r1 ts of
             (matched, r2) \<Rightarrow> (if keep then t # matched else matched, r2)))"

subsection \<open>findToolsInServer\<close>

definition findToolsInServer ::
  "'a host \<Rightarrow> 'a manager \<Rightarrow> string \<Rightarrow> string \<Rightarrow> searchIn option \<Rightarrow> bool option
     \<Rightarrow> (error + tool_info list) \<times> 'a manager" where
  "findToolsInServer h st serverName pattern searchIn_arg caseSensitive_arg =
     (let si = (case searchIn_arg of None \<Rightarrow> InBoth | Some x \<Rightarrow> x);
          caseSensitive = (case caseSensitive_arg of None \<Rightarrow> False | Some b \<Rightarrow> b)
      in case getClient st serverName of
           Inl e \<Rightarrow> (Inl e, st)
         | Inr client \<Rightarrow>
             (let st1 = record_event (ClientListTools serverName) st in
              case listTools_reply client of
                Inl msg \<Rightarrow> (Inl (BackendError msg), st1)
              | Inr toolsResponse \<Rightarrow>
                  (case tools toolsResponse of
                     Array ts \<Rightarrow>
                       (case new_RegExp h pattern (if caseSensitive then ''g'' else ''gi'') of
                          Inl msg \<Rightarrow> (Inl (RegExpSyntaxError msg), st1)
                        | Inr regex \<Rightarrow>
                            (Inr (map project (fst (filter_tools si regex ts))), st1))
                   | _ \<Rightarrow> (Inr [], st1))))"

subsection \<open>findTools\<close>

text \<open>An element of a result array of \<open>findTools\<close>: a projected tool, or the object
  \<open>{ error: ... }\<close> that stands for a backend whose listing failed.\<close>

datatype search_entry = Hit tool_info | ErrorMarker string

type_synonym slot_map = "string \<rightharpoonup> search_entry list"

text \<open>
  The result of \<open>findTools\<close> is a plain object, \<open>{}\<close> at the start, that the loop fills
  by assignment \<open>results[serverName] = ...\<close>. The model keeps its own properties and its
  prototype (\<open>None\<close> is \<open>Object.prototype\<close>). An assignment to the key \<open>__proto__\<close> runs the
  setter inherited from \<open>Object.prototype\<close>: the assigned array becomes the prototype and
  no own property is made. An assignment to any other key makes or replaces an own
  property.
\<close>

record search_results =
  own :: slot_map
  proto :: "search_entry list option"

definition empty_results :: search_results where
  "empty_results = \<lparr>own = Map.empty, proto = None\<rparr>"

definition assign_result :: "search_results \<Rightarrow> string \<Rightarrow> search_entry list \<Rightarrow> search_results" where
  "assign_result results key v =
     (if key = ''__proto__'' then results\<lparr>proto := Some v\<rparr>
      else results\<lparr>own := (own results)(key \<mapsto> v)\<rparr>)"

text \<open>The loop over the server names. The regular expression object is created once,
  before the loop.\<close>

fun search_each ::
  "searchIn \<Rightarrow> RegExp \<Rightarrow> 'a manager \<Rightarrow> search_results \<Rightarrow> string list
     \<Rightarrow> search_results \<times> 'a manager" where
  "search_each si regex st results [] = (results, st)"
| "search_each si regex st results (serverName # rest) =
     (case listTools st serverName of
        (Inl e, st1) \<Rightarrow>
          search_each si regex st1
            (assign_result results serverName
               [ErrorMarker (''Failed to search tools: '' @ message e)])
            rest
      | (Inr toolsResponse, st1) \<Rightarrow>
          (case tools toolsResponse of
             Array ts \<Rightarrow>
               (case filter_tools si regex ts of
                  (matched, regex1) \<Rightarrow>
                    search_each si regex1 st1
                      (if matched \<noteq> []
                       then assign_result results serverName (map (Hit \<circ> project) matched)
                       else results)
                      rest)
           | _ \<Rightarrow> search_each si regex st1 results rest))"

definition findTools ::
  "'a host \<Rightarrow> 'a manager \<Rightarrow> string \<Rightarrow> searchIn option \<Rightarrow> bool option
     \<Rightarrow> (error + search_results) \<times> 'a manager" where
  "findTools h st pattern searchIn_opt caseSensitive_opt =
     (let si = (case searchIn_opt of None \<Rightarrow> InBoth | Some x \<Rightarrow> x);
          caseSensitive = (case caseSensitive_opt of None \<Rightarrow> False | Some b \<Rightarrow> b);
          servers = getConnectedServers st
      in if servers = [] then (Inr empty_results, st)
         else (case new_RegExp h pattern (if caseSensitive then [] else ''i'') of
                 Inl msg \<Rightarrow> (Inl (InvalidPattern msg), st)
               | Inr regex \<Rightarrow>
                   (case search_each si regex st empty_results servers of
                      (results, st') \<Rightarrow> (Inr results, st'))))"

subsection \<open>fetchConfigFromApi and loadFromBlueprint\<close>

definition digit_char :: "nat \<Rightarrow> char" where
  "digit_char d = char_of (48 + d)"

function show_nat :: "nat \<Rightarrow> string" where
  "show_nat n = (if n < 10 then [digit_char n] else show_nat (n div 10) @ [digit_char (n mod 10)])"
  by pat_completeness auto
termination
  by (relation "measure id") auto

definition fetchConfigFromApi :: "'a host \<Rightarrow> string \<Rightarrow> error + McpConfig" where
  "fetchConfigFromApi h blueprint =
     (case (case fetch h (''https://muxio.vercel.app/api/blueprint-servers?blueprint_id='' @ blueprint) of
              Inl msg \<Rightarrow> Inl msg
            | Inr (response, json) \<Rightarrow>
                if \<not> ok response then Inl (''HTTP error! status: '' @ show_nat (status response))
                else (case json of
                        Inl msg \<Rightarrow> Inl msg
                      | Inr config \<Rightarrow>
                          if mcpServers config = None
                          then Inl ''Invalid configuration format: missing mcpServers''
                          else Inr config)) of
        Inl msg \<Rightarrow> Inl (FetchConfigFailed blueprint msg)
      | Inr config \<Rightarrow> Inr config)"

text \<open>The loop of \<open>loadFromBlueprint\<close> over \<open>Object.entries(config.mcpServers)\<close>. The
  \<open>catch\<close> only logs.\<close>

fun connect_each :: "'a host \<Rightarrow> 'a manager \<Rightarrow> (string \<times> params) list \<Rightarrow> 'a manager" where
  "connect_each h st [] = st"
| "connect_each h st ((serverName, serverConfig) # rest) =
     (if Map_has (clients st) serverName then connect_each h st rest
      else connect_each h (snd (connectToServer h st serverName serverConfig)) rest)"

definition loadFromBlueprint ::
  "'a host \<Rightarrow> 'a manager \<Rightarrow> string option \<Rightarrow> (error + unit) \<times> 'a manager" where
  "loadFromBlueprint h st blueprintId_arg =
     (let id = (if truthy blueprintId_arg then blueprintId_arg else blueprintId st)
      in case id of
           None \<Rightarrow> (Inl BlueprintIdNotSpecified, st)
         | Some i \<Rightarrow>
             if i = [] then (Inl BlueprintIdNotSpecified, st)
             else (case fetchConfigFromApi h i of
                     Inl e \<Rightarrow> (Inl e, st)
                   | Inr config \<Rightarrow>
                       (case mcpServers config of
                          None \<Rightarrow> (Inr (), st)
                        | Some serverEntries \<Rightarrow>
                            if serverEntries = [] then (Inr (), st)
                            else (Inr (), connect_each h st serverEntries))))"

section \<open>Reference definitions\<close>

subsection \<open>Teardown\<close>

text \<open>A registry entry whose client closes without failure, and the error of the first
  entry of a list when its close fails.\<close>

fun closes_ok :: "string \<times> 'a Client \<Rightarrow> bool" where
  "closes_ok (n, c) = (close_reply c = None)"

fun close_error :: "(string \<times> 'a Client) list \<Rightarrow> error + unit" where
  "close_error [] = Inr ()"
| "close_error ((n, c) # rest) =
     (case close_reply c of None \<Rightarrow> Inr () | Some cause \<Rightarrow> Inl (DisconnectFailed n cause))"

subsection \<open>Matching one descriptor\<close>

text \<open>
  The matching rule in the words of the specification: a descriptor matches if the scope
  allows name-matching, the name is present and the pattern matches the name, or the scope
  allows description-matching, the description is present and the pattern matches the
  description. It reads the descriptor and the pattern only. "Present" is the code's
  guard: defined and not the empty string.
\<close>

definition present_and_matches :: "matcher \<Rightarrow> string option \<Rightarrow> bool" where
  "present_and_matches m v = (case v of None \<Rightarrow> False | Some s \<Rightarrow> s \<noteq> [] \<and> m s 0 \<noteq> None)"

definition descriptor_matches :: "searchIn \<Rightarrow> matcher \<Rightarrow> 'a tool \<Rightarrow> bool" where
  "descriptor_matches si m t =
     ((si \<noteq> InDescription \<and> present_and_matches m (name t))
      \<or> (si \<noteq> InName \<and> present_and_matches m (description t)))"

text \<open>
  The slot of one backend in the result of a search over all backends, in the words of
  the specification: a single error marker when the listing fails, no slot when nothing
  matches (or the listing is not an array), the projected matches otherwise.
\<close>

definition backend_slot :: "searchIn \<Rightarrow> matcher \<Rightarrow> 'a Client \<Rightarrow> search_entry list option" where
  "backend_slot si m c =
     (case listTools_reply c of
        Inl msg \<Rightarrow> Some [ErrorMarker (''Failed to search tools: '' @ msg)]
      | Inr resp \<Rightarrow>
          (case tools resp of
             Array ts \<Rightarrow>
               (if filter (descriptor_matches si m) ts = [] then None
                else Some (map (Hit \<circ> project) (filter (descriptor_matches si m) ts)))
           | _ \<Rightarrow> None))"

definition registry_slots :: "searchIn \<Rightarrow> matcher \<Rightarrow> 'a manager \<Rightarrow> slot_map" where
  "registry_slots si m st n =
     (case Map_get (clients st) n of None \<Rightarrow> None | Some c \<Rightarrow> backend_slot si m c)"

text \<open>The object that holds those slots: every slot is an own property, except the slot
  of a backend named \<open>__proto__\<close>, which is the prototype.\<close>

definition slots_object :: "slot_map \<Rightarrow> search_results" where
  "slots_object f = \<lparr>own = f(''__proto__'' := None), proto = f ''__proto__''\<rparr>"

subsection \<open>Connecting the servers of a blueprint\<close>

text \<open>The client that a connect to one server yields, if the parameters describe a
  transport and \<open>client.connect\<close> succeeds on it.\<close>

definition connect_outcome :: "'a host \<Rightarrow> string \<Rightarrow> params \<Rightarrow> 'a Client option" where
  "connect_outcome h n p =
     (case make_transport h n p of
        Inl e \<Rightarrow> None
      | Inr tr \<Rightarrow>
          (case client_connect h (''mcp-client-'' @ n) tr of
             Inl msg \<Rightarrow> None
           | Inr c \<Rightarrow> Some c))"

text \<open>
  What a pass over all listed servers adds to a registry \<open>cs\<close>, each server taken on its
  own: the entries of the servers that are not registered and whose connect succeeds, and
  the calls of \<open>client.connect\<close>, one for each server that is not registered and whose
  parameters describe a transport. Both in the order of the list.
\<close>

definition newly_connected ::
  "'a host \<Rightarrow> 'a Client js_map \<Rightarrow> (string \<times> params) list \<Rightarrow> 'a Client js_map" where
  "newly_connected h cs es =
     concat (map (\<lambda>(n, p). if Map_has cs n then []
                           else (case connect_outcome h n p of None \<Rightarrow> [] | Some c \<Rightarrow> [(n, c)])) es)"

definition connect_calls ::
  "'a host \<Rightarrow> 'a Client js_map \<Rightarrow> (string \<times> params) list \<Rightarrow> event list" where
  "connect_calls h cs es =
     concat (map (\<lambda>(n, p). if Map_has cs n then []
                           else (case make_transport h n p of
                                   Inl e \<Rightarrow> [] | Inr tr \<Rightarrow> [ClientConnect n])) es)"

subsection \<open>The blueprint identifier\<close>

text \<open>The identifier that \<open>loadFromBlueprint\<close> uses: the argument when it is truthy,
  otherwise the one stored in the manager when that is truthy.\<close>

definition resolve_id :: "'a manager \<Rightarrow> string option \<Rightarrow> string option" where
  "resolve_id st arg =
     (if truthy arg then arg else if truthy (blueprintId st) then blueprintId st else None)"

section \<open>Concrete hosts, backends and registries\<close>

subsection \<open>A regular-expression engine for literal patterns\<close>

text \<open>
  On a pattern made of letters, digits and underscores the JavaScript engine searches for
  the pattern as a substring, folding case under the flag \<open>i\<close>. The engine below does
  that, and rejects every other pattern; \<open>(\<close>, an unterminated group, is among them.
\<close>

definition fold_case :: "char \<Rightarrow> char" where
  "fold_case c = (let n = (of_char c :: nat) in if 65 \<le> n \<and> n \<le> 90 then char_of (n + 32) else c)"

fun find_literal :: "string \<Rightarrow> string \<Rightarrow> nat \<Rightarrow> nat option" where
  "find_literal lit [] i = (if lit = [] then Some i else None)"
| "find_literal lit (c # cs) i =
     (if take (length lit) (c # cs) = lit then Some (i + length lit)
      else find_literal lit cs (Suc i))"

definition literal_matcher :: "bool \<Rightarrow> string \<Rightarrow> matcher" where
  "literal_matcher ignoreCase lit s i =
     (if length s < i then None
      else if ignoreCase then find_literal (map fold_case lit) (map fold_case (drop i s)) i
      else find_literal lit (drop i s) i)"

definition word_char :: "char \<Rightarrow> bool" where
  "word_char c = (let n = (of_char c :: nat) in
      (48 \<le> n \<and> n \<le> 57) \<or> (65 \<le> n \<and> n \<le> 90) \<or> (97 \<le> n \<and> n \<le> 122) \<or> n = 95)"

definition literal_compile :: "string \<Rightarrow> string \<Rightarrow> string + matcher" where
  "literal_compile pattern flags =
     (if list_all word_char pattern then Inr (literal_matcher (CHR ''i'' \<in> set flags) pattern)
      else Inl (''Invalid regular expression: /'' @ pattern @ ''/''))"

subsection \<open>Backends\<close>

definition stuck_client :: "unit Client" where
  "stuck_client = \<lparr>listTools_reply = Inl ''timeout'', close_reply = Some ''socket hang up''\<rparr>"

definition empty_client :: "unit Client" where
  "empty_client = \<lparr>listTools_reply = Inr \<lparr>tools = Array []\<rparr>, close_reply = None\<rparr>"

definition readFile_tool :: "unit tool" where
  "readFile_tool = \<lparr>name = Some ''readFile'', description = Some ''Read a file'', inputSchema = ()\<rparr>"

definition readDir_tool :: "unit tool" where
  "readDir_tool = \<lparr>name = Some ''readDir'', description = Some ''List a directory'', inputSchema = ()\<rparr>"

definition fs_client :: "unit tool list \<Rightarrow> unit Client" where
  "fs_client ts = \<lparr>listTools_reply = Inr \<lparr>tools = Array ts\<rparr>, close_reply = None\<rparr>"

subsection \<open>A host\<close>

text \<open>No process can be spawned on this host, every HTTP backend answers, and the
  blueprint service is unreachable.\<close>

definition example_host :: "unit host" where
  "example_host =
     \<lparr>URL_parse = (\<lambda>s. if take 7 s = ''http://'' \<or> take 8 s = ''https://'' then Some s else None),
      process_env = Map.empty,
      client_connect =
        (\<lambda>n t. case t of
                  StdioClientTransport c a e \<Rightarrow> Inl (''spawn '' @ c @ '' ENOENT'')
                | StreamableHTTPClientTransport u hs \<Rightarrow> Inr empty_client),
      fetch = (\<lambda>u. Inl ''fetch failed''),
      RegExp_compile = literal_compile\<rparr>"

subsection \<open>Registries and parameters\<close>

definition fresh_manager :: "unit manager" where
  "fresh_manager = \<lparr>clients = [], blueprintId = None, trace = []\<rparr>"

definition two_backends :: "unit manager" where
  "two_backends =
     \<lparr>clients = [(''a'', stuck_client), (''b'', empty_client)], blueprintId = None, trace = []\<rparr>"

definition three_backends :: "unit manager" where
  "three_backends =
     \<lparr>clients = [(''a'', fs_client [readFile_tool, readDir_tool]), (''b'', stuck_client),
                 (''c'', empty_client)],
      blueprintId = None, trace = []\<rparr>"

definition proto_backends :: "unit manager" where
  "proto_backends =
     \<lparr>clients = [(''__proto__'', stuck_client), (''a'', fs_client [readFile_tool, readDir_tool])],
      blueprintId = None, trace = []\<rparr>"

definition fs_manager :: "unit tool list \<Rightarrow> unit manager" where
  "fs_manager ts = \<lparr>clients = [(''fs'', fs_client ts)], blueprintId = None, trace = []\<rparr>"

definition bare_params :: params where
  "bare_params = \<lparr>p_type = None, p_command = None, p_args = None,
                   p_env = None, p_url = None, p_headers = None\<rparr>"

definition npx_params :: params where
  "npx_params = bare_params\<lparr>p_command := Some ''npx'', p_args := Some [''-y'', ''server'']\<rparr>"

definition web_params :: params where
  "web_params = bare_params\<lparr>p_url := Some ''https://example.org/mcp''\<rparr>"

text \<open>A host like \<open>example_host\<close> whose blueprint service answers with three servers.\<close>

definition blueprint_config :: McpConfig where
  "blueprint_config =
     \<lparr>mcpServers = Some [(''a'', npx_params), (''fs'', npx_params), (''web'', web_params)]\<rparr>"

definition blueprint_host :: "unit host" where
  "blueprint_host =
     example_host\<lparr>fetch := (\<lambda>u. Inr (\<lparr>ok = True, status = 200\<rparr>, Inr blueprint_config))\<rparr>"

section \<open>Properties\<close>

subsection \<open>Helper facts\<close>

lemma Map_delete_absent: "k \<notin> set (map fst m) \<Longrightarrow> Map_delete m k = m"
  by (induction m) (auto simp: Map_delete_def)

lemma Map_get_in_keys: "n \<in> set (map fst m) \<Longrightarrow> \<exists>c. Map_get m n = Some c"
  by (induction m) (auto simp: Map_get_def)

lemma two_backends_names: "listServers two_backends = [''a'', ''b'']"
  by (simp add: listServers_def getConnectedServers_def Map_keys_def two_backends_def)

subsection \<open>disconnectServer\<close>

text \<open>
  C1, as the code has it. When the close of a connected backend \<open>n\<close> fails,
  \<open>disconnectServer\<close> throws the disconnect failure with the cause, after one call of
  close, and the registry is as before: the entry of \<open>n\<close> is still there, \<open>listServers\<close>
  still names \<open>n\<close>, and \<open>getClient\<close> still finds its client. The deletion is the statement
  after the \<open>await\<close> of close inside the \<open>try\<close>, so a failing close skips it.
\<close>

theorem disconnectServer_close_failure_keeps_entry:
  assumes "Map_get (clients st) n = Some c" and "close_reply c = Some cause"
  shows "fst (disconnectServer st n) = Inl (DisconnectFailed n cause)
       \<and> clients (snd (disconnectServer st n)) = clients st
       \<and> listServers (snd (disconnectServer st n)) = listServers st
       \<and> getClient (snd (disconnectServer st n)) n = Inr c
       \<and> trace (snd (disconnectServer st n)) = trace st @ [ClientClose n]"
  using assms
  by (simp add: disconnectServer_def record_event_def listServers_def getConnectedServers_def
      getClient_def Let_def)

theorem disconnectServer_close_failure_keeps_entry_witness:
  "fst (disconnectServer two_backends ''a'') = Inl (DisconnectFailed ''a'' ''socket hang up'')
   \<and> listServers (snd (disconnectServer two_backends ''a'')) = [''a'', ''b'']"
proof -
  have g: "Map_get (clients two_backends) ''a'' = Some stuck_client"
    by (simp add: two_backends_def Map_get_def)
  have f: "close_reply stuck_client = Some ''socket hang up''"
    by (simp add: stuck_client_def)
  from disconnectServer_close_failure_keeps_entry [OF g f] two_backends_names
  show ?thesis by simp
qed

text \<open>The entry of a backend whose close fails is not removed: after the failed
  disconnect the name is still listed and its client is still found.\<close>

theorem disconnectServer_zombie_counterexample:
  "fst (disconnectServer two_backends ''a'') = Inl (DisconnectFailed ''a'' ''socket hang up'')
   \<and> ''a'' \<in> set (listServers (snd (disconnectServer two_backends ''a'')))
   \<and> getClient (snd (disconnectServer two_backends ''a'')) ''a'' \<noteq> Inl (NotConnected ''a'')"
  by (simp add: disconnectServer_def two_backends_def stuck_client_def empty_client_def
      Map_get_def record_event_def listServers_def getConnectedServers_def Map_keys_def
      getClient_def Let_def)

subsection \<open>disconnectAll\<close>

lemma disconnect_each_clients:
  "distinct (map fst (clients st)) \<Longrightarrow>
   disconnect_each st (map fst (clients st)) =
     (close_error (dropWhile closes_ok (clients st)),
      st\<lparr>clients := dropWhile closes_ok (clients st),
         trace := trace st @ map (ClientClose \<circ> fst)
                   (takeWhile closes_ok (clients st) @ take 1 (dropWhile closes_ok (clients st)))\<rparr>)"
proof (induction "clients st" arbitrary: st)
  case Nil
  then show ?case by simp
next
  case (Cons p cs)
  obtain n c where p: "p = (n, c)" by (cases p)
  have cl: "clients st = (n, c) # cs" using Cons.hyps(2) p by simp
  have fresh: "n \<notin> set (map fst cs)" and dist: "distinct (map fst cs)"
    using Cons.prems cl by auto
  show ?case
  proof (cases "close_reply c")
    case (Some cause)
    then show ?thesis
      using cl by (simp add: disconnectServer_def Map_get_def record_event_def)
  next
    case None
    let ?st' = "st\<lparr>trace := trace st @ [ClientClose n], clients := cs\<rparr>"
    have "Map_delete ((n, c) # cs) n = cs"
      using Map_delete_absent [OF fresh] by (simp add: Map_delete_def)
    then have step: "disconnectServer st n = (Inr (), ?st')"
      using cl None by (simp add: disconnectServer_def Map_get_def record_event_def)
    have "cs = clients ?st'" by simp
    from Cons.hyps(1) [OF this] dist
    have "disconnect_each ?st' (map fst cs) =
       (close_error (dropWhile closes_ok cs),
        ?st'\<lparr>clients := dropWhile closes_ok cs,
         trace := trace ?st' @ map (ClientClose \<circ> fst)
                   (takeWhile closes_ok cs @ take 1 (dropWhile closes_ok cs))\<rparr>)"
      by simp
    then show ?thesis
      using cl None step by simp
  qed
qed

text \<open>
  C2, as the code has it. \<open>disconnectAll\<close> disconnects the registered names in connect
  order and stops at the first name whose close fails, throwing that disconnect failure:
  the names before it are removed, that name and every later name stay registered, and
  close is called on no later name. When no close fails every name is disconnected. The
  loop has no \<open>try\<close>, and nothing collects errors.
\<close>

theorem disconnectAll_stops_at_first_failure:
  assumes "distinct (Map_keys (clients st))"
  shows "disconnectAll st =
     (close_error (dropWhile closes_ok (clients st)),
      st\<lparr>clients := dropWhile closes_ok (clients st),
         trace := trace st @ map (ClientClose \<circ> fst)
                   (takeWhile closes_ok (clients st) @ take 1 (dropWhile closes_ok (clients st)))\<rparr>)"
  using assms disconnect_each_clients [of st]
  by (simp add: disconnectAll_def getConnectedServers_def Map_keys_def)

theorem disconnectAll_stops_at_first_failure_witness:
  "disconnectAll two_backends =
     (Inl (DisconnectFailed ''a'' ''socket hang up''),
      two_backends\<lparr>clients := [(''a'', stuck_client), (''b'', empty_client)],
                   trace := [ClientClose ''a'']\<rparr>)"
proof -
  have d: "distinct (Map_keys (clients two_backends))"
    by (simp add: two_backends_def Map_keys_def)
  have cl: "clients two_backends = [(''a'', stuck_client), (''b'', empty_client)]"
    and tr: "trace two_backends = []"
    by (simp_all add: two_backends_def)
  have s: "close_reply stuck_client = Some ''socket hang up''"
    by (simp add: stuck_client_def)
  from disconnectAll_stops_at_first_failure [OF d] show ?thesis
    by (simp add: cl tr s)
qed

text \<open>The close of \<open>a\<close> fails, the close of \<open>b\<close> would not: \<open>disconnectAll\<close> throws at
  \<open>a\<close>, never closes \<open>b\<close>, and \<open>b\<close> stays registered.\<close>

theorem disconnectAll_abort_counterexample:
  "fst (disconnectAll two_backends) = Inl (DisconnectFailed ''a'' ''socket hang up'')
   \<and> close_reply empty_client = None
   \<and> listServers (snd (disconnectAll two_backends)) = [''a'', ''b'']
   \<and> trace (snd (disconnectAll two_backends)) = [ClientClose ''a'']"
  by (simp add: disconnectAll_def getConnectedServers_def Map_keys_def disconnectServer_def
      two_backends_def stuck_client_def empty_client_def Map_get_def record_event_def
      listServers_def Let_def)

subsection \<open>connectToServer\<close>

text \<open>
  C6. When the name is not registered, the parameters describe a transport, and
  \<open>client.connect\<close> fails on it, \<open>connectToServer\<close> throws the connection failure with the
  cause and the registry is as before: no entry for the name, no other entry changed.
\<close>

theorem connectToServer_failure_leaves_registry:
  assumes "\<not> Map_has (clients st) n"
    and "make_transport h n p = Inr tr"
    and "client_connect h (''mcp-client-'' @ n) tr = Inl cause"
  shows "fst (connectToServer h st n p) = Inl (ConnectionFailed n cause)
       \<and> clients (snd (connectToServer h st n p)) = clients st
       \<and> listServers (snd (connectToServer h st n p)) = listServers st"
  using assms
  by (simp add: connectToServer_def record_event_def listServers_def getConnectedServers_def
      Let_def)

theorem connectToServer_failure_leaves_registry_witness:
  "fst (connectToServer example_host two_backends ''fs'' npx_params)
     = Inl (ConnectionFailed ''fs'' ''spawn npx ENOENT'')
   \<and> listServers (snd (connectToServer example_host two_backends ''fs'' npx_params)) = [''a'', ''b'']"
proof -
  have absent: "\<not> Map_has (clients two_backends) ''fs''"
    by (simp add: two_backends_def Map_has_def)
  have tr: "make_transport example_host ''fs'' npx_params
              = Inr (StdioClientTransport ''npx'' [''-y'', ''server''] Map.empty)"
    by (simp add: make_transport_def transportType_def truthy_def npx_params_def
        bare_params_def example_host_def)
  have refused: "client_connect example_host (''mcp-client-'' @ ''fs'')
                   (StdioClientTransport ''npx'' [''-y'', ''server''] Map.empty)
                 = Inl ''spawn npx ENOENT''"
    by (simp add: example_host_def)
  from connectToServer_failure_leaves_registry [OF absent tr refused] two_backends_names
  show ?thesis by simp
qed

text \<open>
  C7. On a name that is already registered \<open>connectToServer\<close> throws the
  already-connected error whatever the parameters are, and returns the state it was given:
  the client of the name is the same, and no \<open>client.connect\<close> was called (the trace has
  not grown).
\<close>

theorem connectToServer_already_connected:
  assumes "Map_has (clients st) n"
  shows "connectToServer h st n p = (Inl (AlreadyConnected n), st)"
  using assms by (simp add: connectToServer_def)

theorem connectToServer_already_connected_witness:
  "connectToServer example_host two_backends ''b'' npx_params
     = (Inl (AlreadyConnected ''b''), two_backends)"
proof -
  have "Map_has (clients two_backends) ''b''"
    by (simp add: two_backends_def Map_has_def)
  from connectToServer_already_connected [OF this] show ?thesis .
qed



subsection \<open>listTools and listToolsInServer\<close>

text \<open>
  C9. For a connected backend whose listing call answers with a response,
  \<open>listTools\<close> returns that response, and \<open>listToolsInServer\<close> returns the projection of
  its descriptors to name and description: the same length, and at every index the same
  name and the same description. When the response holds an empty array, no \<open>tools\<close>, or
  something that is not an array, \<open>listToolsInServer\<close> returns the empty sequence and
  does not throw.
\<close>

theorem listToolsInServer_projects_listTools:
  assumes "getClient st n = Inr c" and "listTools_reply c = Inr resp"
  shows "fst (listTools st n) = Inr resp
       \<and> fst (listToolsInServer st n)
           = Inr (case tools resp of Array ts \<Rightarrow> map project ts | _ \<Rightarrow> [])
       \<and> (\<forall>ts. tools resp = Array ts \<longrightarrow>
            (\<exists>summary. fst (listToolsInServer st n) = Inr summary
               \<and> length summary = length ts
               \<and> (\<forall>i<length ts. info_name (summary ! i) = name (ts ! i)
                                \<and> info_description (summary ! i) = description (ts ! i))))
       \<and> (tools resp = Array [] \<or> tools resp = Absent \<or> tools resp = NotAnArray \<longrightarrow>
            fst (listToolsInServer st n) = Inr [])"
  using assms
  by (auto simp: listTools_def listToolsInServer_def project_def split: tools_value.splits)

theorem listToolsInServer_projects_listTools_witness:
  "fst (listTools (fs_manager [readFile_tool, readDir_tool]) ''fs'')
     = Inr \<lparr>tools = Array [readFile_tool, readDir_tool]\<rparr>
   \<and> fst (listToolsInServer (fs_manager [readFile_tool, readDir_tool]) ''fs'')
       = Inr [ToolInfo (Some ''readFile'') (Some ''Read a file''),
              ToolInfo (Some ''readDir'') (Some ''List a directory'')]
   \<and> fst (listToolsInServer (fs_manager []) ''fs'') = Inr []"
proof -
  have c1: "getClient (fs_manager [readFile_tool, readDir_tool]) ''fs''
              = Inr (fs_client [readFile_tool, readDir_tool])"
    by (simp add: getClient_def fs_manager_def Map_get_def)
  have l1: "listTools_reply (fs_client [readFile_tool, readDir_tool])
              = Inr \<lparr>tools = Array [readFile_tool, readDir_tool]\<rparr>"
    by (simp add: fs_client_def)
  have c2: "getClient (fs_manager []) ''fs'' = Inr (fs_client [])"
    by (simp add: getClient_def fs_manager_def Map_get_def)
  have l2: "listTools_reply (fs_client []) = Inr \<lparr>tools = Array []\<rparr>"
    by (simp add: fs_client_def)
  from listToolsInServer_projects_listTools [OF c1 l1]
       listToolsInServer_projects_listTools [OF c2 l2]
  show ?thesis by (simp add: readFile_tool_def readDir_tool_def project_def)
qed

subsection \<open>The filter without the flag g\<close>

lemma RegExp_test_stateless:
  "\<not> global r \<Longrightarrow> RegExp_test r s = (exec_from r s 0 \<noteq> None, r)"
  by (simp add: RegExp_test_def)

lemma guarded_test_stateless:
  "\<not> global r \<Longrightarrow> guarded_test r v = (present_and_matches (exec_from r) v, r)"
  by (simp add: guarded_test_def present_and_matches_def RegExp_test_stateless
      split: option.splits)

lemma tool_matches_stateless:
  "\<not> global r \<Longrightarrow> tool_matches si r t = (descriptor_matches si (exec_from r) t, r)"
  by (simp add: tool_matches_def descriptor_matches_def guarded_test_stateless)

lemma filter_tools_stateless:
  "\<not> global r \<Longrightarrow> filter_tools si r ts = (filter (descriptor_matches si (exec_from r)) ts, r)"
  by (induction ts) (simp_all add: tool_matches_stateless)

subsection \<open>findTools\<close>

lemma listTools_connected:
  "Map_get (clients st) n = Some c \<Longrightarrow>
   listTools st n =
     ((case listTools_reply c of Inl msg \<Rightarrow> Inl (BackendError msg) | Inr resp \<Rightarrow> Inr resp),
      st\<lparr>trace := trace st @ [ClientListTools n]\<rparr>)"
  by (simp add: listTools_def getClient_def record_event_def split: sum.splits)

lemma search_each_stateless:
  assumes "\<not> global r" and "distinct names" and "set names \<subseteq> set (map fst (clients st))"
  shows "search_each si r st results names =
     (\<lparr>own = (\<lambda>n. if n \<in> set names \<and> n \<noteq> ''__proto__''
                   then (case registry_slots si (exec_from r) st n of
                           None \<Rightarrow> own results n | Some es \<Rightarrow> Some es)
                   else own results n),
       proto = (if ''__proto__'' \<in> set names
                then (case registry_slots si (exec_from r) st ''__proto__'' of
                        None \<Rightarrow> proto results | Some es \<Rightarrow> Some es)
                else proto results)\<rparr>,
      st\<lparr>trace := trace st @ map ClientListTools names\<rparr>)"
  using assms
proof (induction names arbitrary: st results)
  case Nil
  then show ?case by simp
next
  case (Cons n rest)
  from Cons.prems obtain c where c: "Map_get (clients st) n = Some c"
    using Map_get_in_keys [of n "clients st"] by auto
  let ?st1 = "st\<lparr>trace := trace st @ [ClientListTools n]\<rparr>"
  let ?results1 = "(case backend_slot si (exec_from r) c of
                      None \<Rightarrow> results | Some es \<Rightarrow> assign_result results n es)"
  have slots: "registry_slots si (exec_from r) ?st1 = registry_slots si (exec_from r) st"
    by (simp add: registry_slots_def fun_eq_iff)
  have step: "search_each si r st results (n # rest) = search_each si r ?st1 ?results1 rest"
    using c Cons.prems(1)
    by (simp add: listTools_connected backend_slot_def filter_tools_stateless
        split: sum.splits tools_value.splits)
  have ih: "search_each si r ?st1 ?results1 rest =
     (\<lparr>own = (\<lambda>k. if k \<in> set rest \<and> k \<noteq> ''__proto__''
                   then (case registry_slots si (exec_from r) ?st1 k of
                           None \<Rightarrow> own ?results1 k | Some es \<Rightarrow> Some es)
                   else own ?results1 k),
       proto = (if ''__proto__'' \<in> set rest
                then (case registry_slots si (exec_from r) ?st1 ''__proto__'' of
                        None \<Rightarrow> proto ?results1 | Some es \<Rightarrow> Some es)
                else proto ?results1)\<rparr>,
      ?st1\<lparr>trace := trace ?st1 @ map ClientListTools rest\<rparr>)"
    using Cons.prems by (intro Cons.IH) auto
  have here: "registry_slots si (exec_from r) st n = backend_slot si (exec_from r) c"
    using c by (simp add: registry_slots_def)
  have fresh: "n \<notin> set rest" using Cons.prems by simp
  have o: "(\<lambda>k. if k \<in> set rest \<and> k \<noteq> ''__proto__''
                   then (case registry_slots si (exec_from r) ?st1 k of
                           None \<Rightarrow> own ?results1 k | Some es \<Rightarrow> Some es)
                   else own ?results1 k)
     = (\<lambda>k. if k \<in> set (n # rest) \<and> k \<noteq> ''__proto__''
                   then (case registry_slots si (exec_from r) st k of
                           None \<Rightarrow> own results k | Some es \<Rightarrow> Some es)
                   else own results k)"
    unfolding slots using here fresh
    by (auto simp: fun_eq_iff assign_result_def split: option.splits)
  have p: "(if ''__proto__'' \<in> set rest
                then (case registry_slots si (exec_from r) ?st1 ''__proto__'' of
                        None \<Rightarrow> proto ?results1 | Some es \<Rightarrow> Some es)
                else proto ?results1)
     = (if ''__proto__'' \<in> set (n # rest)
                then (case registry_slots si (exec_from r) st ''__proto__'' of
                        None \<Rightarrow> proto results | Some es \<Rightarrow> Some es)
                else proto results)"
    unfolding slots using here fresh
    by (auto simp: assign_result_def split: option.splits)
  show ?case using step ih o p by simp
qed

text \<open>
  What \<open>findTools\<close> returns when the pattern compiles. It does not throw, whatever the
  backends answer, and every registered backend is asked for its listing once, in connect
  order. The slot of a backend is one error marker that carries the failure message when
  its listing call fails, its projected matches when it has some, and nothing when it has
  none. The slot of every backend is an own property of the result, except for a backend
  named \<open>__proto__\<close>: its slot becomes the prototype of the result.
\<close>

lemma findTools_slots:
  assumes "distinct (Map_keys (clients st))"
    and "RegExp_compile h pattern
           (if (case cs of None \<Rightarrow> False | Some b \<Rightarrow> b) then [] else ''i'') = Inr m"
  shows "fst (findTools h st pattern si cs)
           = Inr (slots_object (registry_slots (case si of None \<Rightarrow> InBoth | Some x \<Rightarrow> x) m st))
       \<and> trace (snd (findTools h st pattern si cs))
           = trace st @ map ClientListTools (listServers st)"
proof (cases "clients st = []")
  case True
  then show ?thesis
    by (simp add: findTools_def getConnectedServers_def Map_keys_def listServers_def
        registry_slots_def Map_get_def fun_eq_iff slots_object_def empty_results_def)
next
  case False
  let ?flags = "if (case cs of None \<Rightarrow> False | Some b \<Rightarrow> b) then [] else ''i''"
  let ?r = "\<lparr>exec_from = m, global = False, lastIndex = 0\<rparr>"
  let ?si = "case si of None \<Rightarrow> InBoth | Some x \<Rightarrow> x"
  let ?names = "map fst (clients st)"
  have g: "CHR ''g'' \<notin> set ?flags" by simp
  have r: "new_RegExp h pattern ?flags = Inr ?r"
    using assms(2) g by (simp add: new_RegExp_def)
  have absent: "registry_slots ?si m st n = None" if "n \<notin> set ?names" for n
  proof -
    have "map_of (clients st) n = None"
      using that by (simp add: map_of_eq_None_iff)
    then show ?thesis by (simp add: registry_slots_def Map_get_def)
  qed
  have run: "search_each ?si ?r st empty_results ?names =
     (\<lparr>own = (\<lambda>n. if n \<in> set ?names \<and> n \<noteq> ''__proto__''
                   then (case registry_slots ?si (exec_from ?r) st n of
                           None \<Rightarrow> own empty_results n | Some es \<Rightarrow> Some es)
                   else own empty_results n),
       proto = (if ''__proto__'' \<in> set ?names
                then (case registry_slots ?si (exec_from ?r) st ''__proto__'' of
                        None \<Rightarrow> proto empty_results | Some es \<Rightarrow> Some es)
                else proto empty_results)\<rparr>,
      st\<lparr>trace := trace st @ map ClientListTools ?names\<rparr>)"
    using assms(1) by (intro search_each_stateless) (simp_all add: Map_keys_def)
  have o: "(\<lambda>n. if n \<in> set ?names \<and> n \<noteq> ''__proto__''
                   then (case registry_slots ?si (exec_from ?r) st n of
                           None \<Rightarrow> own empty_results n | Some es \<Rightarrow> Some es)
                   else own empty_results n)
           = (registry_slots ?si m st)(''__proto__'' := None)"
    using absent by (auto simp: fun_eq_iff empty_results_def split: option.splits)
  have p: "(if ''__proto__'' \<in> set ?names
                then (case registry_slots ?si (exec_from ?r) st ''__proto__'' of
                        None \<Rightarrow> proto empty_results | Some es \<Rightarrow> Some es)
                else proto empty_results)
           = registry_slots ?si m st ''__proto__''"
    using absent [of "''__proto__''"] by (auto simp: empty_results_def split: option.splits)
  show ?thesis
    using False r run o p
    by (simp add: findTools_def getConnectedServers_def Map_keys_def listServers_def Let_def
        slots_object_def)
qed

text \<open>Three backends: one with matches, one whose listing fails, one without tools.\<close>

lemma findTools_three_backends:
  "(case fst (findTools example_host three_backends ''read'' (Some InName) None) of
      Inl e \<Rightarrow> False
    | Inr results \<Rightarrow>
        own results ''a'' = Some [Hit (ToolInfo (Some ''readFile'') (Some ''Read a file'')),
                                  Hit (ToolInfo (Some ''readDir'') (Some ''List a directory''))]
      \<and> own results ''b'' = Some [ErrorMarker ''Failed to search tools: timeout'']
      \<and> own results ''c'' = None
      \<and> proto results = None)
   \<and> trace (snd (findTools example_host three_backends ''read'' (Some InName) None))
       = [ClientListTools ''a'', ClientListTools ''b'', ClientListTools ''c'']"
proof -
  have d: "distinct (Map_keys (clients three_backends))"
    by (simp add: three_backends_def Map_keys_def)
  have c: "RegExp_compile example_host ''read''
             (if (case None of None \<Rightarrow> False | Some b \<Rightarrow> b) then [] else ''i'')
           = Inr (literal_matcher True ''read'')"
    by (simp add: example_host_def literal_compile_def word_char_def)
  have a: "registry_slots InName (literal_matcher True ''read'') three_backends ''a''
      = Some [Hit (ToolInfo (Some ''readFile'') (Some ''Read a file'')),
              Hit (ToolInfo (Some ''readDir'') (Some ''List a directory''))]"
    by code_simp
  have b: "registry_slots InName (literal_matcher True ''read'') three_backends ''b''
      = Some [ErrorMarker ''Failed to search tools: timeout'']"
    by code_simp
  have cc: "registry_slots InName (literal_matcher True ''read'') three_backends ''c'' = None"
    by code_simp
  have pp: "registry_slots InName (literal_matcher True ''read'') three_backends ''__proto__''
              = None"
    by code_simp
  have l: "listServers three_backends = [''a'', ''b'', ''c'']"
    by (simp add: listServers_def getConnectedServers_def Map_keys_def three_backends_def)
  have t: "trace three_backends = []" by (simp add: three_backends_def)
  from findTools_slots [OF d c, of "Some InName"] a b cc pp l t
  show ?thesis by (simp add: slots_object_def)
qed

text \<open>
  C5 at a concrete registry. Two backends are registered: \<open>__proto__\<close>, whose listing
  call fails with the message \<open>timeout\<close>, and \<open>a\<close>, which lists \<open>readFile\<close> and
  \<open>readDir\<close>. The search for \<open>read\<close> in names returns an object whose only own slot is
  the one of \<open>a\<close>: the backend \<open>__proto__\<close> has no slot, and its error marker sits in the
  prototype of the result. The \<open>catch\<close> stores the marker with
  \<open>results[serverName] = ...\<close> on a plain object.
\<close>

theorem findTools_drops_proto_backend:
  "listTools_reply stuck_client = Inl ''timeout''
   \<and> listServers proto_backends = [''__proto__'', ''a'']
   \<and> (case fst (findTools example_host proto_backends ''read'' (Some InName) None) of
        Inl e \<Rightarrow> False
      | Inr results \<Rightarrow>
          own results ''__proto__'' = None
        \<and> own results ''a'' = Some [Hit (ToolInfo (Some ''readFile'') (Some ''Read a file'')),
                                    Hit (ToolInfo (Some ''readDir'') (Some ''List a directory''))]
        \<and> proto results = Some [ErrorMarker ''Failed to search tools: timeout''])"
  by code_simp

text \<open>
  C3, as the code has it, for the search over all backends. When the pattern does not
  compile and at least one backend is registered, \<open>findTools\<close> throws the invalid-pattern
  error and returns the state it was given: no backend was asked for its listing. On the
  empty registry it returns the empty mapping: the check for an empty registry comes
  before the pattern is compiled.
\<close>

theorem findTools_invalid_pattern:
  assumes "RegExp_compile h pattern
             (if (case cs of None \<Rightarrow> False | Some b \<Rightarrow> b) then [] else ''i'') = Inl msg"
  shows "findTools h st pattern si cs =
           (if clients st = [] then (Inr empty_results, st) else (Inl (InvalidPattern msg), st))"
  using assms
  by (simp add: findTools_def getConnectedServers_def Map_keys_def new_RegExp_def Let_def)

theorem findTools_invalid_pattern_witness:
  "findTools example_host two_backends ''('' None None
     = (Inl (InvalidPattern ''Invalid regular expression: /(/''), two_backends)
   \<and> fst (findTools example_host fresh_manager ''('' None None) = Inr empty_results"
proof -
  have c: "RegExp_compile example_host ''(''
             (if (case None of None \<Rightarrow> False | Some b \<Rightarrow> b) then [] else ''i'')
           = Inl ''Invalid regular expression: /(/''"
    by (simp add: example_host_def literal_compile_def word_char_def)
  have ne: "clients two_backends \<noteq> []" by (simp add: two_backends_def)
  have e: "clients fresh_manager = []" by (simp add: fresh_manager_def)
  from findTools_invalid_pattern [OF c, of two_backends None]
       findTools_invalid_pattern [OF c, of fresh_manager None] ne e
  show ?thesis by simp
qed

text \<open>The pattern \<open>(\<close> does not compile, and the search over the empty registry with
  that pattern does not fail.\<close>

theorem findTools_empty_registry_counterexample:
  "isl (new_RegExp example_host ''('' ''i'')
   \<and> \<not> isl (fst (findTools example_host fresh_manager ''('' None None))"
  by (simp add: findTools_def getConnectedServers_def Map_keys_def fresh_manager_def
      new_RegExp_def example_host_def literal_compile_def word_char_def)

subsection \<open>findToolsInServer\<close>

text \<open>The search in one backend asks the backend for its listing before anything is
  done with the pattern.\<close>

lemma findToolsInServer_lists_first:
  assumes "getClient st n = Inr c"
  shows "trace (snd (findToolsInServer h st n pattern si cs)) = trace st @ [ClientListTools n]"
  using assms
  by (simp add: findToolsInServer_def record_event_def Let_def
      split: sum.splits tools_value.splits)

text \<open>
  C4 at a concrete backend. The backend lists \<open>readFile\<close> and \<open>readDir\<close>; the search
  is for \<open>read\<close> in names. \<open>findToolsInServer\<close> returns \<open>readFile\<close> only. The same
  search on a backend that lists \<open>readDir\<close> alone returns \<open>readDir\<close>: the descriptor
  matches, and it is dropped in the first search because of the test that ran before it.
  The regular expression is built with the flag \<open>g\<close>, so the match on \<open>readFile\<close> leaves
  \<open>lastIndex = 4\<close> and the test of \<open>readDir\<close> starts there.
\<close>

theorem findToolsInServer_skips_later_match:
  "fst (findToolsInServer example_host (fs_manager [readFile_tool, readDir_tool])
          ''fs'' ''read'' (Some InName) None)
     = Inr [ToolInfo (Some ''readFile'') (Some ''Read a file'')]
   \<and> fst (findToolsInServer example_host (fs_manager [readDir_tool])
            ''fs'' ''read'' (Some InName) None)
     = Inr [ToolInfo (Some ''readDir'') (Some ''List a directory'')]"
  by code_simp

subsection \<open>loadFromBlueprint\<close>

lemma map_of_Map_set: "map_of (Map_set m k v) = (map_of m)(k \<mapsto> v)"
  by (induction m) (auto simp: fun_eq_iff)

lemma keys_Map_set: "fst ` set (Map_set m k v) = insert k (fst ` set m)"
  by (induction m) auto

lemma connectToServer_keeps_entries:
  assumes "Map_get (clients st) n = Some c"
  shows "Map_get (clients (snd (connectToServer h st m p))) n = Some c"
proof (cases "Map_has (clients st) m")
  case True
  then show ?thesis using assms by (simp add: connectToServer_def)
next
  case False
  have "n \<in> set (map fst (clients st))"
    using assms by (auto simp: Map_get_def dest!: map_of_SomeD intro: rev_image_eqI)
  then have "m \<noteq> n" using False by (auto simp: Map_has_def)
  then show ?thesis
    using assms False
    by (simp add: connectToServer_def Map_get_def record_event_def map_of_Map_set Let_def
        split: sum.splits)
qed

lemma connectToServer_keeps_names:
  "Map_has (clients st) n \<Longrightarrow> Map_has (clients (snd (connectToServer h st m p))) n"
  by (simp add: connectToServer_def Map_has_def record_event_def keys_Map_set Let_def
      split: sum.splits)

lemma connectToServer_trace:
  "\<exists>new. trace (snd (connectToServer h st m p)) = trace st @ new
         \<and> set new \<subseteq> {ClientConnect m} \<and> (Map_has (clients st) m \<longrightarrow> new = [])"
  by (simp add: connectToServer_def record_event_def Let_def split: sum.splits)

lemma connect_each_keeps_entries:
  "Map_get (clients st) n = Some c \<Longrightarrow> Map_get (clients (connect_each h st es)) n = Some c"
  by (induction es arbitrary: st) (auto simp: connectToServer_keeps_entries)

lemma connect_each_trace:
  "\<exists>new. trace (connect_each h st es) = trace st @ new
         \<and> (\<forall>n. Map_has (clients st) n \<longrightarrow> ClientConnect n \<notin> set new)"
proof (induction es arbitrary: st)
  case Nil
  then show ?case by simp
next
  case (Cons e es)
  obtain m p where e: "e = (m, p)" by (cases e)
  show ?case
  proof (cases "Map_has (clients st) m")
    case True
    then show ?thesis using Cons.IH [of st] e by simp
  next
    case False
    let ?st' = "snd (connectToServer h st m p)"
    obtain new1 where n1: "trace ?st' = trace st @ new1" "set new1 \<subseteq> {ClientConnect m}"
      using connectToServer_trace [of h st m p] by blast
    obtain new2 where n2: "trace (connect_each h ?st' es) = trace ?st' @ new2"
        "\<forall>n. Map_has (clients ?st') n \<longrightarrow> ClientConnect n \<notin> set new2"
      using Cons.IH [of ?st'] by blast
    have "\<forall>n. Map_has (clients st) n \<longrightarrow> ClientConnect n \<notin> set (new1 @ new2)"
    proof (intro allI impI)
      fix n assume h: "Map_has (clients st) n"
      then have "n \<noteq> m" using False by auto
      then have "ClientConnect n \<notin> set new1" using n1(2) by auto
      moreover have "ClientConnect n \<notin> set new2"
        using n2(2) connectToServer_keeps_names [OF h] by blast
      ultimately show "ClientConnect n \<notin> set (new1 @ new2)" by simp
    qed
    moreover have "trace (connect_each h st (e # es)) = trace st @ (new1 @ new2)"
      using False e n1(1) n2(1) by simp
    ultimately show ?thesis by blast
  qed
qed

lemma Map_set_fresh: "k \<notin> fst ` set m \<Longrightarrow> Map_set m k v = m @ [(k, v)]"
  by (induction m) auto

lemma connectToServer_fresh:
  assumes "\<not> Map_has (clients st) n"
  shows "snd (connectToServer h st n p) =
           st\<lparr>clients := clients st @ (case connect_outcome h n p of None \<Rightarrow> [] | Some c \<Rightarrow> [(n, c)]),
              trace := trace st @ (case make_transport h n p of Inl e \<Rightarrow> [] | Inr tr \<Rightarrow> [ClientConnect n])\<rparr>"
proof -
  have "n \<notin> fst ` set (clients st)" using assms by (simp add: Map_has_def)
  then show ?thesis
    using assms
    by (cases st)
       (simp add: connectToServer_def connect_outcome_def record_event_def Map_set_fresh Let_def
          split: sum.splits)
qed

lemma newly_connected_cong:
  "\<forall>n \<in> fst ` set es. Map_has cs n = Map_has cs' n \<Longrightarrow>
   newly_connected h cs es = newly_connected h cs' es"
  by (induction es) (auto simp: newly_connected_def)

lemma connect_calls_cong:
  "\<forall>n \<in> fst ` set es. Map_has cs n = Map_has cs' n \<Longrightarrow>
   connect_calls h cs es = connect_calls h cs' es"
  by (induction es) (auto simp: connect_calls_def)

lemma connect_each_exact:
  "distinct (map fst es) \<Longrightarrow>
   connect_each h st es =
     st\<lparr>clients := clients st @ newly_connected h (clients st) es,
        trace := trace st @ connect_calls h (clients st) es\<rparr>"
proof (induction es arbitrary: st)
  case Nil
  then show ?case by (simp add: newly_connected_def connect_calls_def)
next
  case (Cons e es)
  obtain n p where e: "e = (n, p)" by (cases e)
  have dist: "distinct (map fst es)" and fresh: "n \<notin> fst ` set es"
    using Cons.prems e by auto
  show ?case
  proof (cases "Map_has (clients st) n")
    case True
    then show ?thesis
      using Cons.IH [OF dist, of st] e by (simp add: newly_connected_def connect_calls_def)
  next
    case False
    let ?add = "case connect_outcome h n p of None \<Rightarrow> [] | Some c \<Rightarrow> [(n, c)]"
    let ?ev = "case make_transport h n p of Inl e \<Rightarrow> [] | Inr tr \<Rightarrow> [ClientConnect n]"
    let ?st' = "st\<lparr>clients := clients st @ ?add, trace := trace st @ ?ev\<rparr>"
    have st': "snd (connectToServer h st n p) = ?st'"
      by (rule connectToServer_fresh [OF False])
    have same: "Map_has (clients ?st') k = Map_has (clients st) k" if "k \<in> fst ` set es" for k
    proof -
      have "k \<noteq> n" using that fresh by auto
      then show ?thesis by (auto simp: Map_has_def split: option.splits)
    qed
    have nc: "newly_connected h (clients ?st') es = newly_connected h (clients st) es"
      by (rule newly_connected_cong) (use same in blast)
    have cc: "connect_calls h (clients ?st') es = connect_calls h (clients st) es"
      by (rule connect_calls_cong) (use same in blast)
    have "connect_each h st (e # es) = connect_each h ?st' es"
      using False e st' by simp
    also have "\<dots> = ?st'\<lparr>clients := clients ?st' @ newly_connected h (clients ?st') es,
                         trace := trace ?st' @ connect_calls h (clients ?st') es\<rparr>"
      by (rule Cons.IH [OF dist])
    also have "\<dots> = st\<lparr>clients := clients st @ newly_connected h (clients st) (e # es),
                        trace := trace st @ connect_calls h (clients st) (e # es)\<rparr>"
      unfolding nc cc using False e
      by (simp add: newly_connected_def connect_calls_def)
    finally show ?thesis .
  qed
qed

lemma connect_calls_member:
  "(n, p) \<in> set es \<Longrightarrow> \<not> Map_has cs n \<Longrightarrow> make_transport h n p = Inr tr \<Longrightarrow>
   ClientConnect n \<in> set (connect_calls h cs es)"
  by (force simp: connect_calls_def)

lemma newly_connected_keys:
  "fst ` set (newly_connected h cs es) \<subseteq> fst ` set es"
  by (auto simp: newly_connected_def split: if_splits option.splits intro: rev_image_eqI)

lemma newly_connected_lookup:
  "distinct (map fst es) \<Longrightarrow> (n, p) \<in> set es \<Longrightarrow> \<not> Map_has cs n \<Longrightarrow>
   connect_outcome h n p = Some c \<Longrightarrow> map_of (newly_connected h cs es) n = Some c"
proof (induction es)
  case Nil
  then show ?case by simp
next
  case (Cons e es)
  obtain n' p' where e: "e = (n', p')" by (cases e)
  have split: "newly_connected h cs (e # es) =
      (if Map_has cs n' then [] else (case connect_outcome h n' p' of None \<Rightarrow> [] | Some c \<Rightarrow> [(n', c)]))
      @ newly_connected h cs es"
    using e by (simp add: newly_connected_def)
  show ?case
  proof (cases "n' = n")
    case True
    then have "p' = p" using Cons.prems(1,2) e by (auto intro: rev_image_eqI)
    then show ?thesis using True Cons.prems(3,4) split by simp
  next
    case False
    then have "(n, p) \<in> set es" using Cons.prems(2) e by auto
    then have "map_of (newly_connected h cs es) n = Some c"
      using Cons.IH Cons.prems by simp
    then show ?thesis using False split by (auto split: option.splits)
  qed
qed

lemma registered_after:
  assumes "distinct (map fst es)" and "(n, p) \<in> set es" and "\<not> Map_has cs n"
    and "connect_outcome h n p = Some c"
  shows "Map_get (cs @ newly_connected h cs es) n = Some c"
proof -
  have "map_of cs n = None"
    using assms(3) by (simp add: Map_has_def map_of_eq_None_iff)
  then show ?thesis
    using newly_connected_lookup [OF assms]
    by (simp add: Map_get_def map_add_def)
qed

text \<open>
  C10. The outcome of \<open>loadFromBlueprint\<close> is decided by the blueprint identifier and
  the fetch of the configuration alone: it throws when no identifier is given, it throws
  the error of \<open>fetchConfigFromApi\<close> when the fetch fails, and it returns normally in
  every other case, whatever happens when the listed servers are connected. A server name
  that is already registered keeps its client, and \<open>client.connect\<close> is not called for
  it. The loop goes through the whole list: the state at the end is the state at the
  start with, appended in list order, the entry of every listed server that was not
  registered and whose own connect succeeds, and one call of \<open>client.connect\<close> for every
  listed server that was not registered and whose parameters describe a transport. So a
  server is attempted, and registered when its connect succeeds, whether or not a server
  before it in the list failed. The names of the list are distinct, as the keys of an
  object are.
\<close>

theorem loadFromBlueprint_failures:
  "fst (loadFromBlueprint h st b) =
     (case resolve_id st b of
        None \<Rightarrow> Inl BlueprintIdNotSpecified
      | Some i \<Rightarrow> (case fetchConfigFromApi h i of Inl e \<Rightarrow> Inl e | Inr config \<Rightarrow> Inr ()))
   \<and> (\<forall>n c. Map_get (clients st) n = Some c \<longrightarrow>
              Map_get (clients (snd (loadFromBlueprint h st b))) n = Some c)
   \<and> (\<exists>new. trace (snd (loadFromBlueprint h st b)) = trace st @ new
            \<and> (\<forall>n. Map_has (clients st) n \<longrightarrow> ClientConnect n \<notin> set new))
   \<and> (\<forall>i config es.
         resolve_id st b = Some i \<and> fetchConfigFromApi h i = Inr config
         \<and> mcpServers config = Some es \<and> distinct (map fst es) \<longrightarrow>
         snd (loadFromBlueprint h st b) =
           st\<lparr>clients := clients st @ newly_connected h (clients st) es,
              trace := trace st @ connect_calls h (clients st) es\<rparr>
         \<and> (\<forall>n p. (n, p) \<in> set es \<and> \<not> Map_has (clients st) n \<longrightarrow>
               (\<forall>tr. make_transport h n p = Inr tr \<longrightarrow>
                  ClientConnect n \<in> set (trace (snd (loadFromBlueprint h st b))))
             \<and> (\<forall>c. connect_outcome h n p = Some c \<longrightarrow>
                  Map_get (clients (snd (loadFromBlueprint h st b))) n = Some c)))"
proof -
  have res: "fst (loadFromBlueprint h st b) =
     (case resolve_id st b of
        None \<Rightarrow> Inl BlueprintIdNotSpecified
      | Some i \<Rightarrow> (case fetchConfigFromApi h i of Inl e \<Rightarrow> Inl e | Inr config \<Rightarrow> Inr ()))"
    by (auto simp: loadFromBlueprint_def resolve_id_def truthy_def Let_def
        split: option.splits sum.splits)
  have st': "snd (loadFromBlueprint h st b) = st
           \<or> (\<exists>es. snd (loadFromBlueprint h st b) = connect_each h st es)"
    by (auto simp: loadFromBlueprint_def Let_def split: option.splits sum.splits)
  have keep: "\<forall>n c. Map_get (clients st) n = Some c \<longrightarrow>
              Map_get (clients (snd (loadFromBlueprint h st b))) n = Some c"
    using st' connect_each_keeps_entries by metis
  have tr: "\<exists>new. trace (snd (loadFromBlueprint h st b)) = trace st @ new
            \<and> (\<forall>n. Map_has (clients st) n \<longrightarrow> ClientConnect n \<notin> set new)"
    using st'
  proof
    assume "snd (loadFromBlueprint h st b) = st"
    then have "trace (snd (loadFromBlueprint h st b)) = trace st @ []" by simp
    then show ?thesis by (metis empty_iff list.set(1))
  next
    assume "\<exists>es. snd (loadFromBlueprint h st b) = connect_each h st es"
    then show ?thesis using connect_each_trace by metis
  qed
  have exact: "snd (loadFromBlueprint h st b) =
           st\<lparr>clients := clients st @ newly_connected h (clients st) es,
              trace := trace st @ connect_calls h (clients st) es\<rparr>"
    if "resolve_id st b = Some i" "fetchConfigFromApi h i = Inr config"
       "mcpServers config = Some es" "distinct (map fst es)" for i config es
  proof (cases "es = []")
    case True
    then show ?thesis
      using that
      by (cases st)
         (auto simp: loadFromBlueprint_def resolve_id_def truthy_def Let_def
            newly_connected_def connect_calls_def split: option.splits if_splits)
  next
    case False
    then have "snd (loadFromBlueprint h st b) = connect_each h st es"
      using that
      by (auto simp: loadFromBlueprint_def resolve_id_def truthy_def Let_def
          split: option.splits if_splits)
    then show ?thesis using connect_each_exact [OF that(4)] by simp
  qed
  have more: "(\<forall>tr. make_transport h n p = Inr tr \<longrightarrow>
                  ClientConnect n \<in> set (trace (snd (loadFromBlueprint h st b))))
             \<and> (\<forall>c. connect_outcome h n p = Some c \<longrightarrow>
                  Map_get (clients (snd (loadFromBlueprint h st b))) n = Some c)"
    if "resolve_id st b = Some i" "fetchConfigFromApi h i = Inr config"
       "mcpServers config = Some es" "distinct (map fst es)"
       "(n, p) \<in> set es" "\<not> Map_has (clients st) n" for i config es n p
    using exact [OF that(1-4)] connect_calls_member [OF that(5,6)]
      registered_after [OF that(4,5,6)]
    by simp
  from res keep tr exact more show ?thesis by blast
qed

text \<open>The blueprint lists \<open>a\<close>, which is registered, \<open>fs\<close>, whose connect fails, and
  \<open>web\<close>, whose connect succeeds: \<open>a\<close> is skipped, \<open>fs\<close> is attempted and its failure
  is swallowed, and \<open>web\<close>, which comes after the failure, is attempted and registered.\<close>

theorem loadFromBlueprint_failures_witness:
  "fst (loadFromBlueprint blueprint_host two_backends (Some ''bp1'')) = Inr ()
   \<and> connect_outcome blueprint_host ''fs'' npx_params = None
   \<and> snd (loadFromBlueprint blueprint_host two_backends (Some ''bp1''))
       = two_backends\<lparr>clients := [(''a'', stuck_client), (''b'', empty_client),
                                   (''web'', empty_client)],
                      trace := [ClientConnect ''fs'', ClientConnect ''web'']\<rparr>
   \<and> Map_get (clients (snd (loadFromBlueprint blueprint_host two_backends (Some ''bp1'')))) ''a''
       = Some stuck_client
   \<and> Map_get (clients (snd (loadFromBlueprint blueprint_host two_backends (Some ''bp1'')))) ''web''
       = Some empty_client
   \<and> ClientConnect ''web''
       \<in> set (trace (snd (loadFromBlueprint blueprint_host two_backends (Some ''bp1''))))"
proof -
  let ?es = "[(''a'', npx_params), (''fs'', npx_params), (''web'', web_params)]"
  have r: "resolve_id two_backends (Some ''bp1'') = Some ''bp1''"
    by (simp add: resolve_id_def truthy_def)
  have f: "fetchConfigFromApi blueprint_host ''bp1'' = Inr blueprint_config"
    by (simp add: fetchConfigFromApi_def blueprint_host_def blueprint_config_def)
  have m: "mcpServers blueprint_config = Some ?es"
    by (simp add: blueprint_config_def)
  have d: "distinct (map fst ?es)" by simp
  have g: "Map_get (clients two_backends) ''a'' = Some stuck_client"
    by (simp add: two_backends_def Map_get_def)
  have cl: "clients two_backends = [(''a'', stuck_client), (''b'', empty_client)]"
    and t: "trace two_backends = []"
    by (simp_all add: two_backends_def)
  have tw: "make_transport blueprint_host ''web'' web_params
              = Inr (StreamableHTTPClientTransport ''https://example.org/mcp'' None)"
    by (simp add: make_transport_def transportType_def truthy_def web_params_def
        bare_params_def blueprint_host_def example_host_def)
  have tf: "make_transport blueprint_host ''fs'' npx_params
              = Inr (StdioClientTransport ''npx'' [''-y'', ''server''] Map.empty)"
    by (simp add: make_transport_def transportType_def truthy_def npx_params_def
        bare_params_def blueprint_host_def example_host_def)
  have ow: "connect_outcome blueprint_host ''web'' web_params = Some empty_client"
    by (simp add: connect_outcome_def tw) (simp add: blueprint_host_def example_host_def)
  have ofs: "connect_outcome blueprint_host ''fs'' npx_params = None"
    by (simp add: connect_outcome_def tf) (simp add: blueprint_host_def example_host_def)
  have nc: "newly_connected blueprint_host (clients two_backends) ?es = [(''web'', empty_client)]"
    by (simp add: newly_connected_def cl Map_has_def ow ofs)
  have cc: "connect_calls blueprint_host (clients two_backends) ?es
              = [ClientConnect ''fs'', ClientConnect ''web'']"
    by (simp add: connect_calls_def cl Map_has_def tw tf)
  have inl: "(''web'', web_params) \<in> set ?es" by simp
  have nw: "\<not> Map_has (clients two_backends) ''web''"
    by (simp add: cl Map_has_def)
  note lfb = loadFromBlueprint_failures [of blueprint_host two_backends "Some ''bp1''"]
  have all: "fst (loadFromBlueprint blueprint_host two_backends (Some ''bp1'')) = Inr ()"
    using lfb [THEN conjunct1] by (simp add: r f)
  have keep: "Map_get (clients (snd (loadFromBlueprint blueprint_host two_backends (Some ''bp1''))))
                 ''a'' = Some stuck_client"
    using lfb [THEN conjunct2, THEN conjunct1] g by blast
  have hyp: "resolve_id two_backends (Some ''bp1'') = Some ''bp1''
      \<and> fetchConfigFromApi blueprint_host ''bp1'' = Inr blueprint_config
      \<and> mcpServers blueprint_config = Some ?es \<and> distinct (map fst ?es)"
    using r f m d by blast
  note rest = lfb [THEN conjunct2, THEN conjunct2, THEN conjunct2, rule_format, OF hyp]
  have exact: "snd (loadFromBlueprint blueprint_host two_backends (Some ''bp1''))
       = two_backends\<lparr>clients := clients two_backends
                                    @ newly_connected blueprint_host (clients two_backends) ?es,
                      trace := trace two_backends
                                 @ connect_calls blueprint_host (clients two_backends) ?es\<rparr>"
    using rest by (rule conjunct1)
  have hw: "(''web'', web_params) \<in> set ?es \<and> \<not> Map_has (clients two_backends) ''web''"
    using inl nw by blast
  note lw = rest [THEN conjunct2, rule_format, OF hw]
  have web: "ClientConnect ''web''
                \<in> set (trace (snd (loadFromBlueprint blueprint_host two_backends (Some ''bp1''))))"
             "Map_get (clients (snd (loadFromBlueprint blueprint_host two_backends (Some ''bp1''))))
                 ''web'' = Some empty_client"
    using lw tw ow by blast+
  have final: "snd (loadFromBlueprint blueprint_host two_backends (Some ''bp1''))
       = two_backends\<lparr>clients := [(''a'', stuck_client), (''b'', empty_client),
                                   (''web'', empty_client)],
                      trace := [ClientConnect ''fs'', ClientConnect ''web'']\<rparr>"
    using exact unfolding nc cc by (simp add: cl t)
  show ?thesis
    using all ofs final keep web by blast
qed

end
